theory Spec2Isabelle
  imports Complex_Main "HOL-Library.AList" "HOL-Library.Log_Nat"
begin

section \<open>JSON values and JavaScript's view of them\<close>

text \<open>
  Every frame on the socket is a JSON text. The hub reads it with \<^verbatim>\<open>JSON.parse\<close>, looks at
  its properties with \<^verbatim>\<open>data.name\<close>, tests them for truthiness and compares them with
  \<^verbatim>\<open>===\<close>, and writes its replies with \<^verbatim>\<open>JSON.stringify\<close>. Numbers are the integers
  (identifiers and counts; no path of the hub does arithmetic on a frame's number).
  A property that is missing reads as \<^verbatim>\<open>undefined\<close>, which is \<open>None\<close> here.
\<close>

datatype json =
    JNull
  | JBool bool
  | JNum int
  | JStr string
  | JArr "json list"
  | JObj "(string \<times> json) list"

type_synonym obj = "(string \<times> json) list"

definition jget :: "obj \<Rightarrow> string \<Rightarrow> json option" where
  "jget data k = map_of data k"

text \<open>Truthiness: \<^verbatim>\<open>undefined\<close>, \<^verbatim>\<open>null\<close>, \<^verbatim>\<open>false\<close>, \<^verbatim>\<open>0\<close> and \<^verbatim>\<open>""\<close> are falsy.\<close>

fun truthy :: "json option \<Rightarrow> bool" where
  "truthy None = False"
| "truthy (Some JNull) = False"
| "truthy (Some (JBool b)) = b"
| "truthy (Some (JNum n)) = (n \<noteq> 0)"
| "truthy (Some (JStr s)) = (s \<noteq> [])"
| "truthy (Some (JArr xs)) = True"
| "truthy (Some (JObj kvs)) = True"

text \<open>
  Strict equality \<^verbatim>\<open>===\<close>: primitives are compared by type and value; arrays and objects
  are compared by reference, and two values that come from different frames (or from a
  frame and from the database) are never the same reference. Where the source compares a
  value of a frame with itself, the model says so at that place.
\<close>

fun strict_eq :: "json option \<Rightarrow> json option \<Rightarrow> bool" where
  "strict_eq None None = True"
| "strict_eq (Some JNull) (Some JNull) = True"
| "strict_eq (Some (JBool a)) (Some (JBool b)) = (a = b)"
| "strict_eq (Some (JNum a)) (Some (JNum b)) = (a = b)"
| "strict_eq (Some (JStr a)) (Some (JStr b)) = (a = b)"
| "strict_eq a b = False"

text \<open>
  \<^verbatim>\<open>JSON.stringify\<close> of an object literal: a property whose value is \<^verbatim>\<open>undefined\<close> is
  left out of the text.
\<close>

fun defined_fields :: "(string \<times> json option) list \<Rightarrow> obj" where
  "defined_fields [] = []"
| "defined_fields ((k, None) # kvs) = defined_fields kvs"
| "defined_fields ((k, Some v) # kvs) = (k, v) # defined_fields kvs"

definition stringify :: "(string \<times> json option) list \<Rightarrow> json" where
  "stringify kvs = JObj (defined_fields kvs)"

text \<open>The property of a JSON text that is an object.\<close>

definition jfield :: "json \<Rightarrow> string \<Rightarrow> json option" where
  "jfield v k = (case v of JObj kvs \<Rightarrow> map_of kvs k | _ \<Rightarrow> None)"

text \<open>Whether some object inside a JSON value has a property of the given name.\<close>

fun has_key :: "string \<Rightarrow> json \<Rightarrow> bool" where
  "has_key k (JArr xs) = list_ex (has_key k) xs"
| "has_key k (JObj kvs) = (k \<in> set (map fst kvs) \<or> list_ex (has_key k) (map snd kvs))"
| "has_key k v = False"

section \<open>The hub's state\<close>

text \<open>
  A connection is a \<^verbatim>\<open>WebSocket\<close> object, known by its identity. The transport keeps the
  set \<^verbatim>\<open>wss.clients\<close> (a \<^verbatim>\<open>Set\<close>, iterated in insertion order) and each socket's
  \<^verbatim>\<open>readyState\<close>; the hub keeps \<^verbatim>\<open>clients\<close>, a \<^verbatim>\<open>Map\<close> from sockets to the identity
  given in the socket's \<^verbatim>\<open>auth\<close> frame (iterated in insertion order, so an association
  list: \<open>AList.update\<close> is \<^verbatim>\<open>Map.set\<close>, \<open>AList.delete\<close> is \<^verbatim>\<open>Map.delete\<close>).
\<close>

datatype ready_state = CONNECTING | OPEN | CLOSING | CLOSED

type_synonym conn = nat

record client_info =
  userId :: "json option"
  username :: "json option"

record hub =
  wss_clients :: "conn list"
  readyState :: "conn \<Rightarrow> ready_state"
  clients :: "(conn \<times> client_info) list"

text \<open>
  A handler runs to its end without interleaving, except where it awaits a collaborator:
  the rest of the work is then a task that runs later, on the state of that later moment.
\<close>

datatype task =
    SearchQuery conn client_info json
  | FriendSuggestions conn "json option"
  | ContactStatusUpdate conn client_info json json

text \<open>
  What a handler does: the state it leaves, the calls of \<^verbatim>\<open>send\<close> it makes (socket and
  JSON text, in order), the tasks it starts and the lines it writes with
  \<^verbatim>\<open>console.error\<close>. A call of \<^verbatim>\<open>send\<close> on a socket that is not \<open>OPEN\<close> puts nothing
  on the wire.
\<close>

record outcome =
  hub_after :: hub
  sent :: "(conn \<times> json) list"
  spawned :: "task list"
  logged :: "string list"

definition quiet :: "hub \<Rightarrow> (conn \<times> json) list \<Rightarrow> outcome" where
  "quiet st msgs = \<lparr>hub_after = st, sent = msgs, spawned = [], logged = []\<rparr>"

text \<open>\<^verbatim>\<open>clientData && clientData.userId === u\<close>, with \<^verbatim>\<open>clientData = clients.get(client)\<close>.\<close>

definition bound_to :: "hub \<Rightarrow> conn \<Rightarrow> json option \<Rightarrow> bool" where
  "bound_to st client u =
     (case map_of (clients st) client of
        None \<Rightarrow> False
      | Some clientData \<Rightarrow> strict_eq (userId clientData) u)"

text \<open>The loop over \<^verbatim>\<open>wss.clients\<close> that sends to the open sockets of one user.\<close>

definition send_to_user :: "hub \<Rightarrow> json option \<Rightarrow> json \<Rightarrow> (conn \<times> json) list" where
  "send_to_user st u payload =
     map (\<lambda>client. (client, payload))
       (filter (\<lambda>client. readyState st client = OPEN \<and> bound_to st client u) (wss_clients st))"

text \<open>The loop over \<^verbatim>\<open>wss.clients\<close> that sends to every open socket but \<open>ws\<close>.\<close>

definition send_to_others :: "hub \<Rightarrow> conn \<Rightarrow> json \<Rightarrow> (conn \<times> json) list" where
  "send_to_others st ws payload =
     map (\<lambda>client. (client, payload))
       (filter (\<lambda>client. client \<noteq> ws \<and> readyState st client = OPEN) (wss_clients st))"

section \<open>The message handler\<close>

definition info_json :: "client_info \<Rightarrow> json" where
  "info_json ci = stringify [(''userId'', userId ci), (''username'', username ci)]"

definition user_online :: "obj \<Rightarrow> json" where
  "user_online data =
     stringify [(''type'', Some (JStr ''user-online'')),
                (''userId'', jget data ''userId''),
                (''username'', jget data ''username'')]"

text \<open>
  The \<^verbatim>\<open>auth\<close> branch. The new entry of \<open>ws\<close> holds the very value \<^verbatim>\<open>data.userId\<close>, so the
  filter of the online users drops it whatever that value is.
\<close>

definition on_auth :: "hub \<Rightarrow> conn \<Rightarrow> obj \<Rightarrow> outcome" where
  "on_auth st ws data =
     (let st' = st\<lparr>clients :=
                  AList.update ws \<lparr>userId = jget data ''userId'', username = jget data ''username''\<rparr>
                    (clients st)\<rparr>;
          onlineUsers =
            filter (\<lambda>(c, client). truthy (userId client) \<and> c \<noteq> ws \<and>
                       \<not> strict_eq (userId client) (jget data ''userId''))
              (clients st')
      in \<lparr>hub_after = st',
          sent = send_to_others st ws (user_online data) @
                 [(ws, stringify [(''type'', Some (JStr ''online-users'')),
                                  (''users'', Some (JArr (map (\<lambda>(c, client). info_json client) onlineUsers)))])],
          spawned = [FriendSuggestions ws (jget data ''userId'')],
          logged = []\<rparr>)"

text \<open>
  The enrichment of a frame: the sender, a message identifier where the frame has none
  (or a falsy one), and the sender's user identifier as \<^verbatim>\<open>originalSenderId\<close>. The
  identifier \<open>mid\<close> is the text the hub makes from the clock and a random number.
\<close>

definition enrich :: "obj \<Rightarrow> client_info \<Rightarrow> string \<Rightarrow> json" where
  "enrich data clientInfo mid =
     (let e0 = AList.update ''sender'' (Some (info_json clientInfo))
                 (map (\<lambda>(k, v). (k, Some v)) data);
          e1 = (if \<not> truthy (jget data ''messageId'')
                then AList.update ''messageId'' (Some (JStr mid)) e0 else e0);
          e2 = AList.update ''originalSenderId'' (userId clientInfo) e1
      in stringify e2)"

definition directed :: "hub \<Rightarrow> bool \<Rightarrow> json option \<Rightarrow> json \<Rightarrow> outcome" where
  "directed st guard u payload = quiet st (if guard then send_to_user st u payload else [])"

text \<open>The \<^verbatim>\<open>switch (data.type)\<close> of the handler, case by case in the source's order.\<close>

definition dispatch :: "hub \<Rightarrow> conn \<Rightarrow> client_info \<Rightarrow> obj \<Rightarrow> json \<Rightarrow> outcome" where
  "dispatch st ws clientInfo data enrichedData =
     (let ty = jget data ''type'';
          targetUserId = jget data ''targetUserId'';
          ownerId = jget data ''ownerId''
      in
      if strict_eq ty (Some (JStr ''direct-message'')) then
        directed st (truthy targetUserId) targetUserId enrichedData
      else if strict_eq ty (Some (JStr ''typing-indicator'')) then
        directed st (truthy targetUserId) targetUserId enrichedData
      else if strict_eq ty (Some (JStr ''like-post'')) then
        directed st (truthy (jget data ''postId'') \<and> truthy ownerId) ownerId enrichedData
      else if strict_eq ty (Some (JStr ''like-story'')) then
        directed st (truthy (jget data ''storyId'') \<and> truthy ownerId) ownerId enrichedData
      else if strict_eq ty (Some (JStr ''like-reel'')) then
        directed st (truthy (jget data ''reelId'') \<and> truthy ownerId) ownerId enrichedData
      else if strict_eq ty (Some (JStr ''comment'')) then
        directed st (truthy (jget data ''contentId'') \<and> truthy (jget data ''contentType'') \<and>
                     truthy ownerId) ownerId enrichedData
      else if strict_eq ty (Some (JStr ''follow-request'')) then
        directed st (truthy targetUserId) targetUserId enrichedData
      else if strict_eq ty (Some (JStr ''follow-accept'')) then
        directed st (truthy targetUserId) targetUserId enrichedData
      else if strict_eq ty (Some (JStr ''search-query'')) then
        (case jget data ''query'' of
           None \<Rightarrow> quiet st []
         | Some query \<Rightarrow>
             if truthy (Some query)
             then (quiet st [])\<lparr>spawned := [SearchQuery ws clientInfo query]\<rparr>
             else quiet st [])
      else if strict_eq ty (Some (JStr ''contact-status-update'')) then
        (case (jget data ''contactId'', jget data ''status'') of
           (Some contactId, Some status) \<Rightarrow>
             if truthy (Some contactId) \<and> truthy (Some status)
             then (quiet st [])\<lparr>spawned := [ContactStatusUpdate ws clientInfo contactId status]\<rparr>
             else quiet st []
         | _ \<Rightarrow> quiet st [])
      else quiet st (send_to_others st ws enrichedData))"

text \<open>
  A frame as the handler meets it: \<open>Malformed\<close> when \<^verbatim>\<open>JSON.parse\<close> throws or yields
  \<^verbatim>\<open>null\<close> (reading \<^verbatim>\<open>data.type\<close> then throws), an envelope when it yields an object.
  Either throw is caught by the handler's own \<^verbatim>\<open>try\<close> and logged. A text that is a
  number, a string, a boolean or an array is no envelope and is left out.
\<close>

datatype frame = Malformed | Envelope obj

definition ack_payload :: "json option \<Rightarrow> string \<Rightarrow> json" where
  "ack_payload messageId now =
     stringify [(''type'', Some (JStr ''ack'')),
                (''messageId'', messageId),
                (''timestamp'', Some (JStr now))]"

definition not_authenticated :: json where
  "not_authenticated =
     stringify [(''type'', Some (JStr ''error'')), (''message'', Some (JStr ''Not authenticated''))]"

text \<open>
  \<^verbatim>\<open>ws.on('message', ...)\<close>: \<open>now\<close> is the clock's ISO text and \<open>mid\<close> the identifier the hub
  would generate at this moment.
\<close>

definition on_message :: "string \<Rightarrow> string \<Rightarrow> hub \<Rightarrow> conn \<Rightarrow> frame \<Rightarrow> outcome" where
  "on_message now mid st ws fr =
     (case fr of
        Malformed \<Rightarrow>
          \<lparr>hub_after = st, sent = [], spawned = [], logged = [''WebSocket message error:'']\<rparr>
      | Envelope data \<Rightarrow>
          if strict_eq (jget data ''type'') (Some (JStr ''auth'')) then on_auth st ws data
          else
            (case map_of (clients st) ws of
               None \<Rightarrow> quiet st [(ws, not_authenticated)]
             | Some clientInfo \<Rightarrow>
                 if strict_eq (jget data ''type'') (Some (JStr ''ack'')) \<and>
                    truthy (jget data ''messageId'')
                 then
                   quiet st
                     (if truthy (jget data ''originalSenderId'')
                      then send_to_user st (jget data ''originalSenderId'')
                             (ack_payload (jget data ''messageId'') now)
                      else [])
                 else dispatch st ws clientInfo data (enrich data clientInfo mid)))"

section \<open>Closing and opening a connection\<close>

definition user_offline :: "client_info \<Rightarrow> json" where
  "user_offline clientInfo =
     stringify [(''type'', Some (JStr ''user-offline'')),
                (''userId'', userId clientInfo),
                (''username'', username clientInfo)]"

text \<open>\<^verbatim>\<open>ws.on('close', ...)\<close>.\<close>

definition on_close :: "hub \<Rightarrow> conn \<Rightarrow> outcome" where
  "on_close st ws =
     quiet (st\<lparr>clients := AList.delete ws (clients st)\<rparr>)
       (case map_of (clients st) ws of
          None \<Rightarrow> []
        | Some clientInfo \<Rightarrow>
            if truthy (userId clientInfo) then send_to_others st ws (user_offline clientInfo)
            else [])"

text \<open>The last statement of \<^verbatim>\<open>wss.on('connection', ...)\<close>: the confirmation to the new socket.\<close>

definition on_connection :: "string \<Rightarrow> hub \<Rightarrow> conn \<Rightarrow> outcome" where
  "on_connection now st ws =
     quiet st [(ws, stringify [(''type'', Some (JStr ''connection'')),
                               (''status'', Some (JStr ''connected'')),
                               (''time'', Some (JStr now))])]"

section \<open>The storage collaborator\<close>

text \<open>
  \<^verbatim>\<open>DatabaseStorage\<close> sends its queries to a PostgreSQL database. The database is a parameter
  of the model: whether it answers at all, the rows of \<^verbatim>\<open>users\<close> and \<^verbatim>\<open>contacts\<close> in the
  order a \<^verbatim>\<open>select\<close> yields them (a row is the object the driver returns, one property per
  column), and its evaluation of \<^verbatim>\<open>LOWER(column) LIKE pattern\<close> on a text that is not null.
\<close>

datatype failure = DbError | TypeError

record database =
  failing :: bool
  users_table :: "obj list"
  contacts_table :: "obj list"
  lower_like :: "string \<Rightarrow> string \<Rightarrow> bool"

text \<open>\<^verbatim>\<open>query.trim() === ''\<close> on the ASCII white space, \<^verbatim>\<open>query.toLowerCase()\<close> on ASCII letters.\<close>

definition is_space :: "char \<Rightarrow> bool" where
  "is_space c = (c \<in> set [CHR '' '', CHR 0x09, CHR 0x0A, CHR 0x0B, CHR 0x0C, CHR 0x0D])"

definition blank :: "string \<Rightarrow> bool" where
  "blank q = list_all is_space q"

definition lower_char :: "char \<Rightarrow> char" where
  "lower_char c =
     (let n = (of_char c :: nat) in if 65 \<le> n \<and> n \<le> 90 then char_of (n + 32) else c)"

definition toLowerCase :: "string \<Rightarrow> string" where
  "toLowerCase q = map lower_char q"

definition column_like :: "database \<Rightarrow> string \<Rightarrow> obj \<Rightarrow> string \<Rightarrow> bool" where
  "column_like db pattern row column =
     (case jget row column of Some (JStr text) \<Rightarrow> lower_like db pattern text | _ \<Rightarrow> False)"

text \<open>
  \<^verbatim>\<open>searchUsers(query)\<close>. Its callers pass whatever the frame holds: on a truthy value that
  is not a string, \<^verbatim>\<open>query.trim\<close> is not a function and the call throws.
\<close>

definition searchUsers :: "database \<Rightarrow> json \<Rightarrow> failure + obj list" where
  "searchUsers db query =
     (let all_users = (if failing db then Inl DbError else Inr (take 50 (users_table db)));
          matching = (\<lambda>lowerCaseQuery.
            if failing db then Inl DbError
            else Inr (take 20
                   (filter (\<lambda>row. column_like db (''%'' @ lowerCaseQuery @ ''%'') row ''username'' \<or>
                                   column_like db (''%'' @ lowerCaseQuery @ ''%'') row ''firstName'' \<or>
                                   column_like db (''%'' @ lowerCaseQuery @ ''%'') row ''lastName'' \<or>
                                   column_like db (''%'' @ lowerCaseQuery @ ''%'') row ''bio'')
                     (users_table db))))
      in case query of
           JStr q \<Rightarrow> if q = [] \<or> blank q then all_users else matching (toLowerCase q)
         | _ \<Rightarrow> if truthy (Some query) then Inl TypeError else all_users)"

text \<open>
  \<^verbatim>\<open>getSuggestions(userId)\<close>: the rows of other users, at most ten, each without its
  \<^verbatim>\<open>password\<close>; any failure is caught and gives the empty list. The parameter is declared a
  number; for any other value the comparison \<^verbatim>\<open>id <> userId\<close> selects no row or is refused
  by the database, and the result is empty either way.
\<close>

definition getSuggestions :: "database \<Rightarrow> json option \<Rightarrow> obj list" where
  "getSuggestions db uid =
     (if failing db then []
      else case uid of
             Some (JNum n) \<Rightarrow>
               map (AList.delete ''password'')
                 (take 10 (filter (\<lambda>row. case jget row ''id'' of Some (JNum m) \<Rightarrow> m \<noteq> n | _ \<Rightarrow> False)
                            (users_table db)))
           | _ \<Rightarrow> [])"

text \<open>
  \<^verbatim>\<open>updateContactStatus(id, status)\<close>: the row of that \<^verbatim>\<open>id\<close> with its new status, or nothing
  when there is no such row; the table is updated. The parameters are declared a number
  and a string; other values are refused by the database.
\<close>

definition updateContactStatus ::
    "database \<Rightarrow> json \<Rightarrow> json \<Rightarrow> (failure + obj option) \<times> database" where
  "updateContactStatus db cid status =
     (if failing db then (Inl DbError, db)
      else case (cid, status) of
             (JNum n, JStr s) \<Rightarrow>
               (let hit = (\<lambda>row. jget row ''id'' = Some (JNum n));
                    set_status = AList.update ''status'' (JStr s)
                in (Inr (map_option set_status (find hit (contacts_table db))),
                    db\<lparr>contacts_table :=
                         map (\<lambda>row. if hit row then set_status row else row) (contacts_table db)\<rparr>))
           | _ \<Rightarrow> (Inl DbError, db))"

section \<open>The work that runs after an await\<close>

definition search_error :: json where
  "search_error =
     stringify [(''type'', Some (JStr ''error'')),
                (''message'', Some (JStr ''Error processing search query''))]"

definition search_results :: "json \<Rightarrow> obj list \<Rightarrow> json" where
  "search_results query filteredResults =
     stringify [(''type'', Some (JStr ''search-results'')),
                (''query'', Some query),
                (''results'', Some (JArr (map JObj (take 5 filteredResults))))]"

text \<open>
  \<^verbatim>\<open>handleSearchQuery(ws, clientInfo, query)\<close>, from the moment the collaborator has
  answered: \<open>st\<close> is the hub's state at that moment.
\<close>

definition handleSearchQuery :: "hub \<Rightarrow> database \<Rightarrow> conn \<Rightarrow> client_info \<Rightarrow> json \<Rightarrow> outcome" where
  "handleSearchQuery st db ws clientInfo query =
     (case searchUsers db query of
        Inr searchResults \<Rightarrow>
          (let filteredResults =
                 filter (\<lambda>user. \<not> strict_eq (jget user ''id'') (userId clientInfo)) searchResults
           in quiet st (if readyState st ws = OPEN
                        then [(ws, search_results query filteredResults)] else []))
      | Inl error \<Rightarrow>
          (quiet st (if readyState st ws = OPEN then [(ws, search_error)] else []))
            \<lparr>logged := [''Error handling search query:'']\<rparr>)"

text \<open>\<^verbatim>\<open>sendFriendSuggestions(ws, userId)\<close>, likewise.\<close>

definition sendFriendSuggestions :: "hub \<Rightarrow> database \<Rightarrow> conn \<Rightarrow> json option \<Rightarrow> outcome" where
  "sendFriendSuggestions st db ws uid =
     (let suggestions = getSuggestions db uid
      in quiet st (if readyState st ws = OPEN
                   then [(ws, stringify [(''type'', Some (JStr ''friend-suggestions'')),
                                         (''suggestions'', Some (JArr (map JObj (take 5 suggestions))))])]
                   else []))"

definition contact_status_failed :: json where
  "contact_status_failed =
     stringify [(''type'', Some (JStr ''error'')),
                (''message'', Some (JStr ''Failed to update contact status'')),
                (''errorCode'', Some (JStr ''CONTACT_STATUS_UPDATE_FAILED''))]"

text \<open>
  The \<^verbatim>\<open>contact-status-update\<close> case from the moment \<^verbatim>\<open>updateContactStatus\<close> has answered
  with \<open>result\<close>; \<open>clientInfo\<close> is the sender's entry as it was when the frame came in.
  (User identifiers that are arrays or objects count as different here even for the
  sender's own entry; for numbers and strings, which is what the schema's identifiers are,
  the comparison is the source's.)
\<close>

definition contact_status_done ::
    "string \<Rightarrow> hub \<Rightarrow> conn \<Rightarrow> client_info \<Rightarrow> failure + obj option \<Rightarrow> outcome" where
  "contact_status_done now st ws clientInfo result =
     (case result of
        Inr None \<Rightarrow> quiet st []
      | Inr (Some updatedContact) \<Rightarrow>
          quiet st
            (map (\<lambda>client. (client,
                    stringify [(''type'', Some (JStr ''contact-status-changed'')),
                               (''contactId'', jget updatedContact ''id''),
                               (''status'', jget updatedContact ''status''),
                               (''updatedBy'', userId clientInfo),
                               (''timestamp'', Some (JStr now))]))
               (filter (\<lambda>client. readyState st client = OPEN \<and>
                          (bound_to st client (userId clientInfo) \<or>
                           bound_to st client (jget updatedContact ''contactId'')))
                  (wss_clients st)))
      | Inl error \<Rightarrow>
          (quiet st [(ws, contact_status_failed)])
            \<lparr>logged := [''Error updating contact status:'']\<rparr>)"

text \<open>A task, run on the hub's state at the time the collaborator answers.\<close>

definition run_task :: "string \<Rightarrow> hub \<Rightarrow> database \<Rightarrow> task \<Rightarrow> outcome \<times> database" where
  "run_task now st db t =
     (case t of
        SearchQuery ws clientInfo query \<Rightarrow> (handleSearchQuery st db ws clientInfo query, db)
      | FriendSuggestions ws uid \<Rightarrow> (sendFriendSuggestions st db ws uid, db)
      | ContactStatusUpdate ws clientInfo cid status \<Rightarrow>
          (let (result, db') = updateContactStatus db cid status
           in (contact_status_done now st ws clientInfo result, db')))"

section \<open>The assistant's periodic messages\<close>

text \<open>
  The numbers of the program are doubles. A rational number stands for the finite double
  of that value, and \<open>to_double\<close> is the rounding every arithmetic operation ends with: to
  the nearest double, a tie going to the even significand. A double has 53 significant
  bits above its exponent, the exponent being at least -1022 (below that the spacing stays
  that of the subnormal numbers); the magnitudes met here are far below the overflow
  threshold.
\<close>

definition round_even :: "rat \<Rightarrow> int" where
  "round_even q =
     (let f = \<lfloor>q\<rfloor>; d = q - of_int f
      in if d < 1 / 2 then f else if 1 / 2 < d then f + 1 else if even f then f else f + 1)"

text \<open>The binary exponent of a positive number: the \<open>e\<close> with \<open>2 powi e \<le> x < 2 powi (e + 1)\<close>.\<close>

definition exponent :: "rat \<Rightarrow> int" where
  "exponent x =
     (let (p, q) = quotient_of x; e = bitlen p - bitlen q
      in if 2 powi e \<le> x then e else e - 1)"

definition ulp :: "rat \<Rightarrow> rat" where
  "ulp x = 2 powi (max (exponent x) (- 1022) - 52)"

definition to_double :: "rat \<Rightarrow> rat" where
  "to_double x =
     (if x = 0 then 0
      else if x < 0 then - (of_int (round_even (- x / ulp (- x))) * ulp (- x))
      else of_int (round_even (x / ulp x)) * ulp x)"

text \<open>
  \<^verbatim>\<open>initPeriodicMessages\<close> calls \<^verbatim>\<open>setInterval(callback, delay)\<close> once, from the constructor.
  The delay is the value of
  \<^verbatim>\<open>Math.floor(Math.random() * 30 * 60 * 1000) + 30 * 60 * 1000\<close> at that call: three
  products from the left, each rounded to a double, then the floor, then the sum of two
  integers, which is exact. The random numbers of the process are the sequence \<open>random\<close>, of
  which \<open>n\<close> have been drawn so far.
\<close>

definition periodic_delay :: "rat \<Rightarrow> int" where
  "periodic_delay r =
     \<lfloor>to_double (to_double (to_double (r * 30) * 60) * 1000)\<rfloor> + 30 * 60 * 1000"

text \<open>
  The timer: its delay, the time at which it fires next (in milliseconds from the call of
  \<^verbatim>\<open>setInterval\<close>), and the number of random numbers drawn so far.
\<close>

record scheduler =
  interval_ms :: int
  next_due :: int
  draws :: nat

definition initPeriodicMessages :: "(nat \<Rightarrow> rat) \<Rightarrow> nat \<Rightarrow> scheduler" where
  "initPeriodicMessages random n =
     \<lparr>interval_ms = periodic_delay (random n), next_due = periodic_delay (random n),
      draws = Suc n\<rparr>"

text \<open>
  A firing: the callback (\<^verbatim>\<open>sendPeriodicMessagesToAllUsers\<close>) runs, which calls neither
  \<^verbatim>\<open>Math.random\<close> nor any timer function, and \<^verbatim>\<open>setInterval\<close> arms the timer again with the
  delay it was given.
\<close>

definition fire :: "scheduler \<Rightarrow> scheduler" where
  "fire sch = sch\<lparr>next_due := next_due sch + interval_ms sch\<rparr>"

text \<open>Firings are counted from 0.\<close>

definition firing_time :: "scheduler \<Rightarrow> nat \<Rightarrow> int" where
  "firing_time sch k = next_due ((fire ^^ k) sch)"

definition delay_before_firing :: "scheduler \<Rightarrow> nat \<Rightarrow> int" where
  "delay_before_firing sch k =
     (case k of 0 \<Rightarrow> firing_time sch 0 | Suc j \<Rightarrow> firing_time sch (Suc j) - firing_time sch j)"

section \<open>The presence set\<close>

text \<open>The connections bound to a user: the keys of \<^verbatim>\<open>clients\<close> whose entry has that \<^verbatim>\<open>userId\<close>.\<close>

definition connections_of :: "hub \<Rightarrow> json option \<Rightarrow> conn list" where
  "connections_of st u = filter (\<lambda>c. bound_to st c u) (map fst (clients st))"

section \<open>Example data\<close>

definition alice :: client_info where
  "alice = \<lparr>userId = Some (JNum 1), username = Some (JStr ''alice'')\<rparr>"

definition bob :: client_info where
  "bob = \<lparr>userId = Some (JNum 2), username = Some (JStr ''bob'')\<rparr>"

definition carol :: client_info where
  "carol = \<lparr>userId = Some (JNum 3), username = Some (JStr ''carol'')\<rparr>"

text \<open>Four open sockets: alice on 1, bob on 3, carol on 4, and socket 2 not yet authenticated.\<close>

definition hub_base :: hub where
  "hub_base = \<lparr>wss_clients = [1, 2, 3, 4], readyState = (\<lambda>c. OPEN),
               clients = [(1, alice), (3, bob), (4, carol)]\<rparr>"

text \<open>The same hub once alice has authenticated on socket 2 as well.\<close>

definition hub_multi :: hub where
  "hub_multi = \<lparr>wss_clients = [1, 2, 3, 4], readyState = (\<lambda>c. OPEN),
                clients = [(1, alice), (3, bob), (4, carol), (2, alice)]\<rparr>"

text \<open>Socket 1 has closed and is gone from the transport's set and from \<^verbatim>\<open>clients\<close>.\<close>

definition hub_closed :: hub where
  "hub_closed = \<lparr>wss_clients = [2, 3, 4], readyState = (\<lambda>c. if c = 1 then CLOSED else OPEN),
                 clients = [(3, bob), (4, carol), (2, alice)]\<rparr>"

text \<open>A binding without \<^verbatim>\<open>userId\<close>, as an \<^verbatim>\<open>auth\<close> frame without \<^verbatim>\<open>userId\<close> leaves it.\<close>

definition ghost :: client_info where
  "ghost = \<lparr>userId = None, username = Some (JStr ''ghost'')\<rparr>"

definition auth_ghost :: obj where
  "auth_ghost = [(''type'', JStr ''auth''), (''username'', JStr ''ghost'')]"

definition hub_ghost :: hub where
  "hub_ghost = \<lparr>wss_clients = [1, 2, 3, 4], readyState = (\<lambda>c. OPEN),
                clients = [(1, alice), (3, bob), (4, carol), (2, ghost)]\<rparr>"

definition auth_alice :: obj where
  "auth_alice = [(''type'', JStr ''auth''), (''userId'', JNum 1), (''username'', JStr ''alice'')]"

definition message_to_self :: obj where
  "message_to_self =
     [(''type'', JStr ''direct-message''), (''targetUserId'', JNum 1), (''content'', JStr ''hi'')]"

definition message_to_bob :: obj where
  "message_to_bob =
     [(''type'', JStr ''direct-message''), (''targetUserId'', JNum 2), (''content'', JStr ''hi'')]"

definition ack_zero :: obj where
  "ack_zero = [(''type'', JStr ''ack''), (''messageId'', JNum 0), (''originalSenderId'', JNum 1)]"

definition ack_m1 :: obj where
  "ack_m1 = [(''type'', JStr ''ack''), (''messageId'', JStr ''m1''), (''originalSenderId'', JNum 1)]"

definition ack_bare :: obj where
  "ack_bare = [(''type'', JStr ''ack''), (''originalSenderId'', JNum 1)]"

definition contact_update :: obj where
  "contact_update =
     [(''type'', JStr ''contact-status-update''), (''contactId'', JNum 5),
      (''status'', JStr ''accepted'')]"

definition search_empty :: obj where
  "search_empty = [(''type'', JStr ''search-query''), (''query'', JStr [])]"

definition search_bo :: obj where
  "search_bo = [(''type'', JStr ''search-query''), (''query'', JStr ''bo'')]"

text \<open>Two rows of \<^verbatim>\<open>users\<close>, with the columns of the schema.\<close>

definition alice_row :: obj where
  "alice_row =
     [(''id'', JNum 1), (''username'', JStr ''alice''), (''password'', JStr ''a1b2.c3d4''),
      (''firstName'', JStr ''Alice''), (''lastName'', JNull), (''email'', JNull),
      (''profilePicture'', JNull), (''bio'', JNull), (''status'', JStr ''online''),
      (''lastActive'', JStr ''2025-01-01T00:00:00.000Z''),
      (''createdAt'', JStr ''2025-01-01T00:00:00.000Z'')]"

definition bob_row :: obj where
  "bob_row =
     [(''id'', JNum 2), (''username'', JStr ''bob''), (''password'', JStr ''e5f6.a7b8''),
      (''firstName'', JStr ''Bob''), (''lastName'', JNull), (''email'', JNull),
      (''profilePicture'', JNull), (''bio'', JNull), (''status'', JStr ''online''),
      (''lastActive'', JStr ''2025-01-01T00:00:00.000Z''),
      (''createdAt'', JStr ''2025-01-01T00:00:00.000Z'')]"

text \<open>
  An example database. Its \<^verbatim>\<open>LIKE\<close> treats the pattern \<^verbatim>\<open>%q%\<close> as "contains \<open>q\<close>", which is
  what the database does when \<open>q\<close> has no wildcard of its own.
\<close>

fun starts_with :: "string \<Rightarrow> string \<Rightarrow> bool" where
  "starts_with [] text = True"
| "starts_with (p # ps) [] = False"
| "starts_with (p # ps) (c # cs) = (p = c \<and> starts_with ps cs)"

fun contains :: "string \<Rightarrow> string \<Rightarrow> bool" where
  "contains q [] = (q = [])"
| "contains q (c # cs) = (starts_with q (c # cs) \<or> contains q cs)"

definition example_like :: "string \<Rightarrow> string \<Rightarrow> bool" where
  "example_like pattern text =
     contains (filter (\<lambda>c. c \<noteq> CHR ''%'') pattern) (toLowerCase text)"

definition db_example :: database where
  "db_example = \<lparr>failing = False, users_table = [alice_row, bob_row], contacts_table = [],
                 lower_like = example_like\<rparr>"

definition db_down :: database where
  "db_down = \<lparr>failing = True, users_table = [alice_row, bob_row], contacts_table = [],
              lower_like = example_like\<rparr>"

text \<open>A random sequence whose first draw is 0 and whose later draws are 1/2.\<close>

definition example_random :: "nat \<Rightarrow> rat" where
  "example_random n = (if n = 0 then 0 else 1 / 2)"

section \<open>Basic facts\<close>

lemma strict_eq_str [simp]: "strict_eq x (Some (JStr s)) = (x = Some (JStr s))"
  by (cases "(x, Some (JStr s))" rule: strict_eq.cases) auto

lemma sent_quiet [simp]: "sent (quiet st msgs) = msgs"
  and hub_after_quiet [simp]: "hub_after (quiet st msgs) = st"
  and spawned_quiet [simp]: "spawned (quiet st msgs) = []"
  and logged_quiet [simp]: "logged (quiet st msgs) = []"
  by (simp_all add: quiet_def)

lemmas example_defs =
  alice_def bob_def carol_def hub_base_def hub_multi_def hub_closed_def auth_alice_def
  message_to_self_def message_to_bob_def ack_zero_def ack_m1_def ack_bare_def search_empty_def
  search_bo_def contact_update_def alice_row_def bob_row_def db_example_def db_down_def
  ghost_def auth_ghost_def hub_ghost_def

lemmas payload_defs =
  stringify_def info_json_def user_online_def user_offline_def ack_payload_def
  not_authenticated_def search_error_def search_results_def contact_status_failed_def

text \<open>The properties of a stringified object, when each name occurs once.\<close>

lemma map_of_defined_fields:
  "distinct (map fst kvs) \<Longrightarrow>
   map_of (defined_fields kvs) k = (case map_of kvs k of Some (Some v) \<Rightarrow> Some v | _ \<Rightarrow> None)"
proof (induction kvs rule: defined_fields.induct)
  case 1
  then show ?case by simp
next
  case (2 k' kvs)
  then show ?case
    by (auto simp: map_of_eq_None_iff image_iff split: option.splits)
next
  case (3 k' v kvs)
  then show ?case by (auto split: option.splits)
qed

lemma map_of_lifted: "map_of (map (\<lambda>(k, v). (k, Some v)) data) k = map_option Some (map_of data k)"
  by (induction data) auto

text \<open>What the enriched frame holds under each name.\<close>

lemma enrich_fields:
  assumes "distinct (map fst data)"
  shows "jfield (enrich data clientInfo mid) k =
           (if k = ''originalSenderId'' then userId clientInfo
            else if k = ''messageId'' \<and> \<not> truthy (jget data ''messageId'') then Some (JStr mid)
            else if k = ''sender'' then Some (info_json clientInfo)
            else jget data k)"
proof -
  define e0 where "e0 = AList.update ''sender'' (Some (info_json clientInfo))
                          (map (\<lambda>(k, v). (k, Some v)) data)"
  define e1 where "e1 = (if \<not> truthy (jget data ''messageId'')
                         then AList.update ''messageId'' (Some (JStr mid)) e0 else e0)"
  define e2 where "e2 = AList.update ''originalSenderId'' (userId clientInfo) e1"
  have d0: "distinct (map fst e0)"
    unfolding e0_def using assms by (intro distinct_update) (simp add: o_def case_prod_beta)
  have d1: "distinct (map fst e1)"
    unfolding e1_def using d0 by (simp add: distinct_update)
  have d2: "distinct (map fst e2)"
    unfolding e2_def using d1 by (rule distinct_update)
  have m0: "map_of e0 k = (if k = ''sender'' then Some (Some (info_json clientInfo))
                           else map_option Some (jget data k))"
    by (simp add: e0_def update_conv' map_of_lifted jget_def)
  have m1: "map_of e1 k = (if k = ''messageId'' \<and> \<not> truthy (jget data ''messageId'')
                           then Some (Some (JStr mid)) else map_of e0 k)"
    by (simp add: e1_def update_conv')
  have m2: "map_of e2 k = (if k = ''originalSenderId'' then Some (userId clientInfo)
                           else map_of e1 k)"
    by (simp add: e2_def update_conv')
  have "enrich data clientInfo mid = JObj (defined_fields e2)"
    by (simp add: enrich_def stringify_def Let_def e0_def e1_def e2_def)
  then have r: "jfield (enrich data clientInfo mid) k =
             (case map_of e2 k of Some (Some v) \<Rightarrow> Some v | _ \<Rightarrow> None)"
    by (simp add: jfield_def map_of_defined_fields [OF d2])
  show ?thesis
    unfolding r m2 m1 m0 by (auto split: option.splits)
qed

lemma keys_defined_fields: "set (map fst (defined_fields kvs)) \<subseteq> set (map fst kvs)"
  by (induction kvs rule: defined_fields.induct) auto

lemma distinct_defined_fields:
  "distinct (map fst kvs) \<Longrightarrow> distinct (map fst (defined_fields kvs))"
proof (induction kvs rule: defined_fields.induct)
  case 1
  then show ?case by simp
next
  case (2 k kvs)
  then show ?case by simp
next
  case (3 k v kvs)
  then show ?case using keys_defined_fields [of kvs] by auto
qed

text \<open>The enriched frame is an object in which each name occurs once.\<close>

lemma enrich_object:
  assumes "distinct (map fst data)"
  shows "\<exists>fields. enrich data clientInfo mid = JObj fields \<and> distinct (map fst fields)"
proof -
  have "distinct (map fst (map (\<lambda>(k, v). (k, Some v)) data))"
    using assms by (simp add: o_def case_prod_beta)
  then show ?thesis
    by (auto simp: enrich_def stringify_def Let_def intro!: distinct_defined_fields distinct_update)
qed

text \<open>The \<^verbatim>\<open>sender\<close> object: what the binding has of \<^verbatim>\<open>userId\<close> and \<^verbatim>\<open>username\<close>, nothing else.\<close>

lemma info_json_object:
  "\<exists>sender. info_json clientInfo = JObj sender \<and> distinct (map fst sender) \<and>
     (\<forall>k. map_of sender k =
            (if k = ''userId'' then userId clientInfo
             else if k = ''username'' then username clientInfo
             else None))"
  by (cases "userId clientInfo"; cases "username clientInfo")
    (auto simp: info_json_def stringify_def)

text \<open>Closing a connection takes it, and nothing else, out of every user's presence set.\<close>

lemma keys_delete: "map fst (AList.delete k al) = filter (\<lambda>c. c \<noteq> k) (map fst al)"
  by (induction al) auto

lemma connections_of_close:
  "connections_of (hub_after (on_close st ws)) u = filter (\<lambda>c. c \<noteq> ws) (connections_of st u)"
proof -
  have b: "bound_to (hub_after (on_close st ws)) c u = bound_to st c u" if "c \<noteq> ws" for c
    using that by (simp add: on_close_def bound_to_def delete_conv')
  have "connections_of (hub_after (on_close st ws)) u =
        filter (\<lambda>c. bound_to (hub_after (on_close st ws)) c u)
          (filter (\<lambda>c. c \<noteq> ws) (map fst (clients st)))"
    by (simp add: connections_of_def on_close_def keys_delete)
  also have "\<dots> = filter (\<lambda>c. c \<noteq> ws) (filter (\<lambda>c. bound_to st c u) (map fst (clients st)))"
    by (auto simp: b intro: filter_cong)
  finally show ?thesis by (simp add: connections_of_def)
qed

section \<open>Passwords on the wire (C1)\<close>

text \<open>
  The suggestions sent after \<^verbatim>\<open>auth\<close> come from \<^verbatim>\<open>getSuggestions\<close>, which removes the
  password of every row: no suggestion on the wire has one.
\<close>

lemma friend_suggestions_have_no_password:
  assumes "(c, payload) \<in> set (sent (sendFriendSuggestions st db ws uid))"
  shows "\<exists>rows. payload = JObj [(''type'', JStr ''friend-suggestions''),
                                 (''suggestions'', JArr (map JObj rows))] \<and>
                (\<forall>row \<in> set rows. jget row ''password'' = None)"
proof -
  have n: "jget row ''password'' = None" if "row \<in> set (take 5 (getSuggestions db uid))" for row
  proof -
    from that have "row \<in> set (getSuggestions db uid)" by (rule in_set_takeD)
    then show ?thesis
      by (auto simp: getSuggestions_def jget_def delete_conv' split: if_splits option.splits json.splits)
  qed
  from assms have "payload = JObj [(''type'', JStr ''friend-suggestions''),
      (''suggestions'', JArr (map JObj (take 5 (getSuggestions db uid))))]"
    by (auto simp: sendFriendSuggestions_def stringify_def split: if_splits)
  with n show ?thesis by blast
qed

text \<open>
  C1. No payload placed on the wire holds a password; in particular every user record of
  a \<^verbatim>\<open>search-results\<close> payload has its password removed. The code does not do this for
  \<^verbatim>\<open>search-results\<close>: \<^verbatim>\<open>searchUsers\<close> returns the rows as the database holds them and
  \<^verbatim>\<open>handleSearchQuery\<close> sends them on. Alice, on socket 1, searches for "bo": the task the
  handler starts answers her with bob's row, password included.
\<close>

theorem search_results_carry_password:
  "spawned (on_message ''t0'' ''m1'' hub_multi 1 (Envelope search_bo)) =
     [SearchQuery 1 alice (JStr ''bo'')] \<and>
   sent (fst (run_task ''t1'' hub_multi db_example (SearchQuery 1 alice (JStr ''bo'')))) =
     [(1, JObj [(''type'', JStr ''search-results''), (''query'', JStr ''bo''),
                (''results'', JArr [JObj bob_row])])] \<and>
   jget bob_row ''password'' = Some (JStr ''e5f6.a7b8'') \<and>
   has_key ''password''
     (JObj [(''type'', JStr ''search-results''), (''query'', JStr ''bo''),
            (''results'', JArr [JObj bob_row])])"
  by (simp add: on_message_def dispatch_def directed_def run_task_def handleSearchQuery_def
      searchUsers_def blank_def is_space_def toLowerCase_def lower_char_def column_like_def
      example_like_def Let_def jget_def example_defs payload_defs)

section \<open>Presence events (C2, C3)\<close>

text \<open>
  Against C2 as stated: alice is bound on socket 1 and authenticates on socket 2 as well.
  Her presence set goes from one connection to two, and \<^verbatim>\<open>user-online\<close> is sent to the
  sockets 1, 3 and 4 all the same.
\<close>

theorem second_auth_fires_user_online:
  "connections_of hub_base (Some (JNum 1)) = [1] \<and>
   connections_of (hub_after (on_message ''t0'' ''m1'' hub_base 2 (Envelope auth_alice)))
     (Some (JNum 1)) = [1, 2] \<and>
   sent (on_message ''t0'' ''m1'' hub_base 2 (Envelope auth_alice)) =
     [(1, JObj [(''type'', JStr ''user-online''), (''userId'', JNum 1), (''username'', JStr ''alice'')]),
      (3, JObj [(''type'', JStr ''user-online''), (''userId'', JNum 1), (''username'', JStr ''alice'')]),
      (4, JObj [(''type'', JStr ''user-online''), (''userId'', JNum 1), (''username'', JStr ''alice'')]),
      (2, JObj [(''type'', JStr ''online-users''),
                (''users'', JArr [JObj [(''userId'', JNum 2), (''username'', JStr ''bob'')],
                                  JObj [(''userId'', JNum 3), (''username'', JStr ''carol'')]])])]"
  by (simp add: on_message_def on_auth_def connections_of_def bound_to_def send_to_others_def
      jget_def example_defs payload_defs)

text \<open>
  C2, amended. Every \<^verbatim>\<open>auth\<close> frame, whatever the state of the hub and however many
  connections the user already has, makes the hub send one \<^verbatim>\<open>user-online\<close> event, with the
  frame's \<^verbatim>\<open>userId\<close> and \<^verbatim>\<open>username\<close>, to every other open connection and to no one else.
\<close>

theorem auth_always_fires_user_online:
  assumes "jget data ''type'' = Some (JStr ''auth'')"
  shows "filter (\<lambda>(c, payload). payload = user_online data)
           (sent (on_message now mid st ws (Envelope data))) =
         map (\<lambda>c. (c, user_online data))
           (filter (\<lambda>c. c \<noteq> ws \<and> readyState st c = OPEN) (wss_clients st))"
  using assms
  by (simp add: on_message_def on_auth_def send_to_others_def Let_def filter_map o_def
      user_online_def stringify_def)

text \<open>The theorem at work: alice, bound on the sockets 1 and 2, authenticates on socket 2 again.\<close>

theorem auth_always_fires_user_online_witness:
  "jget auth_alice ''type'' = Some (JStr ''auth'') \<and>
   connections_of hub_multi (Some (JNum 1)) = [1, 2] \<and>
   filter (\<lambda>(c, payload). payload = user_online auth_alice)
     (sent (on_message ''t0'' ''m1'' hub_multi 2 (Envelope auth_alice))) =
   [(1, user_online auth_alice), (3, user_online auth_alice), (4, user_online auth_alice)]"
proof -
  have ty: "jget auth_alice ''type'' = Some (JStr ''auth'')"
    by (simp add: jget_def auth_alice_def)
  have "map (\<lambda>c. (c, user_online auth_alice))
          (filter (\<lambda>c. c \<noteq> 2 \<and> readyState hub_multi c = OPEN) (wss_clients hub_multi)) =
        [(1, user_online auth_alice), (3, user_online auth_alice), (4, user_online auth_alice)]"
    by (simp add: hub_multi_def)
  moreover have "connections_of hub_multi (Some (JNum 1)) = [1, 2]"
    by (simp add: connections_of_def bound_to_def example_defs)
  ultimately show ?thesis
    using ty auth_always_fires_user_online [OF ty, of "''t0''" "''m1''" hub_multi 2] by simp
qed

text \<open>
  Against C3 as stated: alice is bound on the sockets 1 and 2, and socket 2 closes. Socket
  1 remains hers, and \<^verbatim>\<open>user-offline\<close> is sent to the sockets 1, 3 and 4 all the same.
\<close>

theorem close_with_device_left_fires_user_offline:
  "connections_of hub_multi (Some (JNum 1)) = [1, 2] \<and>
   connections_of (hub_after (on_close hub_multi 2)) (Some (JNum 1)) = [1] \<and>
   sent (on_close hub_multi 2) =
     [(1, JObj [(''type'', JStr ''user-offline''), (''userId'', JNum 1), (''username'', JStr ''alice'')]),
      (3, JObj [(''type'', JStr ''user-offline''), (''userId'', JNum 1), (''username'', JStr ''alice'')]),
      (4, JObj [(''type'', JStr ''user-offline''), (''userId'', JNum 1), (''username'', JStr ''alice'')])]"
  by (simp add: on_close_def connections_of_def bound_to_def send_to_others_def
      example_defs payload_defs)

text \<open>
  C3, amended. When a connection closes that is bound to a user with a truthy \<^verbatim>\<open>userId\<close>,
  the hub sends one \<^verbatim>\<open>user-offline\<close> event, with that user's \<^verbatim>\<open>userId\<close> and \<^verbatim>\<open>username\<close>, to
  every other open connection, whether or not other connections of the user remain. When
  the connection was never bound, or is bound with a falsy \<^verbatim>\<open>userId\<close>, nothing is sent.
  Either way the connection's binding is gone afterwards.
\<close>

theorem close_always_fires_user_offline:
  "(map_of (clients st) ws = Some clientInfo \<and> truthy (userId clientInfo) \<longrightarrow>
      sent (on_close st ws) =
        map (\<lambda>c. (c, user_offline clientInfo))
          (filter (\<lambda>c. c \<noteq> ws \<and> readyState st c = OPEN) (wss_clients st))) \<and>
   (map_of (clients st) ws = Some clientInfo \<and> \<not> truthy (userId clientInfo) \<longrightarrow>
      sent (on_close st ws) = []) \<and>
   (map_of (clients st) ws = None \<longrightarrow> sent (on_close st ws) = []) \<and>
   map_of (clients (hub_after (on_close st ws))) ws = None"
  by (simp add: on_close_def send_to_others_def delete_conv')

text \<open>
  The theorem at work: alice's only connection closes (her presence set goes from one
  connection to none), and the unauthenticated socket 2 closes.
\<close>

theorem close_always_fires_user_offline_witness:
  "map_of (clients hub_base) 1 = Some alice \<and> truthy (userId alice) \<and>
   connections_of hub_base (Some (JNum 1)) = [1] \<and>
   sent (on_close hub_base 1) =
     [(2, user_offline alice), (3, user_offline alice), (4, user_offline alice)] \<and>
   map_of (clients hub_base) 2 = None \<and> sent (on_close hub_base 2) = []"
proof -
  have b: "map_of (clients hub_base) 1 = Some alice \<and> truthy (userId alice)"
    by (simp add: hub_base_def alice_def)
  have u: "map_of (clients hub_base) 2 = None"
    by (simp add: hub_base_def)
  have c: "connections_of hub_base (Some (JNum 1)) = [1]"
    by (simp add: connections_of_def bound_to_def example_defs)
  have f: "filter (\<lambda>c. c \<noteq> 1 \<and> readyState hub_base c = OPEN) (wss_clients hub_base) = [2, 3, 4]"
    by (simp add: hub_base_def)
  show ?thesis
    using b u c f close_always_fires_user_offline [of hub_base 1 alice]
      close_always_fires_user_offline [of hub_base 2 alice]
    by simp
qed

section \<open>Search (C4, C6)\<close>

text \<open>
  A query of white space only is truthy: it reaches \<^verbatim>\<open>searchUsers\<close>, which answers with
  its first fifty rows, and the requester gets the first five of those that are not its own.
\<close>

lemma blank_query_gets_default_list:
  assumes "\<not> failing db" and "blank q" and "readyState st ws = OPEN"
  shows "sent (handleSearchQuery st db ws clientInfo (JStr q)) =
           [(ws, search_results (JStr q)
                   (filter (\<lambda>user. \<not> strict_eq (jget user ''id'') (userId clientInfo))
                      (take 50 (users_table db))))]"
  using assms by (simp add: handleSearchQuery_def searchUsers_def)

text \<open>
  Against C4 as stated: alice, authenticated on socket 1, sends \<^verbatim>\<open>search-query\<close> with the
  query \<^verbatim>\<open>""\<close>. The hub sends nothing and starts no search: she gets no result list.
\<close>

theorem empty_query_gets_no_reply:
  "map_of (clients hub_multi) 1 = Some alice \<and>
   sent (on_message ''t0'' ''m1'' hub_multi 1 (Envelope search_empty)) = [] \<and>
   spawned (on_message ''t0'' ''m1'' hub_multi 1 (Envelope search_empty)) = []"
  by (simp add: on_message_def dispatch_def directed_def jget_def example_defs)

text \<open>
  C4, amended. For every authenticated connection that sends a \<^verbatim>\<open>search-query\<close> envelope
  with an empty query string, the hub does nothing at all: it sends no envelope to anyone
  (so never an \<^verbatim>\<open>error\<close> envelope, and no result list either), it does not call the search
  collaborator, it logs nothing and its state is unchanged.
\<close>

theorem empty_query_is_ignored:
  assumes "map_of (clients st) ws = Some clientInfo"
    and "jget data ''type'' = Some (JStr ''search-query'')"
    and "jget data ''query'' = Some (JStr [])"
  shows "on_message now mid st ws (Envelope data) = quiet st []"
  using assms by (simp add: on_message_def dispatch_def)

text \<open>The theorem at work: bob, on socket 3, sends the empty query.\<close>

theorem empty_query_is_ignored_witness:
  "map_of (clients hub_base) 3 = Some bob \<and>
   jget search_empty ''type'' = Some (JStr ''search-query'') \<and>
   jget search_empty ''query'' = Some (JStr []) \<and>
   sent (on_message ''t0'' ''m1'' hub_base 3 (Envelope search_empty)) = [] \<and>
   spawned (on_message ''t0'' ''m1'' hub_base 3 (Envelope search_empty)) = [] \<and>
   logged (on_message ''t0'' ''m1'' hub_base 3 (Envelope search_empty)) = []"
proof -
  have a: "map_of (clients hub_base) 3 = Some bob" by (simp add: hub_base_def)
  have t: "jget search_empty ''type'' = Some (JStr ''search-query'')"
    by (simp add: jget_def search_empty_def)
  have q: "jget search_empty ''query'' = Some (JStr [])"
    by (simp add: jget_def search_empty_def)
  show ?thesis
    using a t q empty_query_is_ignored [OF a t q, of "''t0''" "''m1''"] by simp
qed

text \<open>
  Against C6 as stated: the database is down when alice, on socket 1, searches for "bo".
  \<^verbatim>\<open>searchUsers\<close> fails, and alice is sent an \<^verbatim>\<open>error\<close> envelope.
\<close>

theorem failed_search_replies_error:
  "searchUsers db_down (JStr ''bo'') = Inl DbError \<and>
   sent (fst (run_task ''t1'' hub_multi db_down (SearchQuery 1 alice (JStr ''bo'')))) =
     [(1, JObj [(''type'', JStr ''error''), (''message'', JStr ''Error processing search query'')])]"
  by (simp add: run_task_def handleSearchQuery_def searchUsers_def blank_def is_space_def
      example_defs payload_defs)

text \<open>
  C6, amended. For every \<^verbatim>\<open>search-query\<close> whose call of \<^verbatim>\<open>searchUsers\<close> fails, the failure
  is caught: the requesting connection, if it is open by then, is sent one \<^verbatim>\<open>error\<close>
  envelope with the message "Error processing search query" and no \<^verbatim>\<open>search-results\<close>;
  nothing is sent to any other connection, no further work is started and the hub's state
  is unchanged.
\<close>

theorem search_failure_is_answered_with_error:
  assumes "searchUsers db query = Inl e"
  shows "sent (handleSearchQuery st db ws clientInfo query) =
           (if readyState st ws = OPEN then [(ws, search_error)] else []) \<and>
         hub_after (handleSearchQuery st db ws clientInfo query) = st \<and>
         spawned (handleSearchQuery st db ws clientInfo query) = []"
  using assms by (simp add: handleSearchQuery_def quiet_def)

text \<open>
  The theorem at work: a query that is a number makes \<^verbatim>\<open>searchUsers\<close> throw; the open
  socket 2 gets the error, the closed socket 1 gets nothing.
\<close>

theorem search_failure_is_answered_with_error_witness:
  "searchUsers db_example (JNum 5) = Inl TypeError \<and>
   sent (handleSearchQuery hub_closed db_example 2 alice (JNum 5)) = [(2, search_error)] \<and>
   sent (handleSearchQuery hub_closed db_example 1 alice (JNum 5)) = []"
proof -
  have f: "searchUsers db_example (JNum 5) = Inl TypeError"
    by (simp add: searchUsers_def db_example_def)
  have r: "readyState hub_closed 2 = OPEN" "readyState hub_closed 1 \<noteq> OPEN"
    by (simp_all add: hub_closed_def)
  show ?thesis
    using f r search_failure_is_answered_with_error [OF f, of hub_closed 2 alice]
      search_failure_is_answered_with_error [OF f, of hub_closed 1 alice]
    by simp
qed

section \<open>The assistant's timer (C5)\<close>

subsection \<open>Rounding to a double\<close>

lemma bitlen_powi:
  assumes "0 < p"
  shows "(2::rat) powi (bitlen p - 1) \<le> of_int p" and "of_int p < (2::rat) powi bitlen p"
proof -
  from assms have b: "1 \<le> bitlen p" by (auto simp: bitlen_alt_def)
  from bitlen_bounds [OF assms]
  have lo: "2 ^ nat (bitlen p - 1) \<le> p" and hi: "p < 2 ^ nat (bitlen p)" by auto
  have "(2::rat) powi (bitlen p - 1) = of_int (2 ^ nat (bitlen p - 1))"
    using b by (simp add: power_int_def)
  also have "\<dots> \<le> of_int p" using lo by (simp only: of_int_le_iff)
  finally show "(2::rat) powi (bitlen p - 1) \<le> of_int p" .
  have "(of_int p :: rat) < of_int (2 ^ nat (bitlen p))" using hi by (simp only: of_int_less_iff)
  also have "\<dots> = 2 powi bitlen p" using b by (simp add: power_int_def)
  finally show "of_int p < (2::rat) powi bitlen p" .
qed

lemma exponent_bounds:
  assumes "0 < x"
  shows "2 powi exponent x \<le> x" and "x < 2 powi (exponent x + 1)"
proof -
  obtain p q where pq: "quotient_of x = (p, q)" by (cases "quotient_of x")
  then have q: "0 < q" and x: "x = of_int p / of_int q"
    by (auto dest: quotient_of_denom_pos quotient_of_div)
  from assms x q have p: "0 < p" by (simp add: zero_less_divide_iff)
  define e where "e = bitlen p - bitlen q"
  have qr: "(0::rat) < of_int q" and pr: "(0::rat) \<le> of_int p" using q p by simp_all
  have pw: "(0::rat) < 2 powi n" for n by (rule zero_less_power_int) simp
  have "x < 2 powi bitlen p / 2 powi (bitlen q - 1)"
    unfolding x by (rule frac_less [OF pr bitlen_powi(2) [OF p] pw bitlen_powi(1) [OF q]])
  also have "\<dots> = 2 powi (bitlen p - (bitlen q - 1))"
    by (rule power_int_diff [symmetric]) simp
  also have "bitlen p - (bitlen q - 1) = e + 1" by (simp add: e_def)
  finally have hi: "x < 2 powi (e + 1)" .
  have "e - 1 = bitlen p - 1 - bitlen q" by (simp add: e_def)
  then have "2 powi (e - 1) = (2::rat) powi (bitlen p - 1 - bitlen q)" by (simp only:)
  also have "\<dots> = (2::rat) powi (bitlen p - 1) / 2 powi bitlen q"
    by (rule power_int_diff) simp
  also have "\<dots> \<le> x"
    unfolding x
    by (rule frac_le [OF pr bitlen_powi(1) [OF p] qr less_imp_le [OF bitlen_powi(2) [OF q]]])
  finally have lo: "2 powi (e - 1) \<le> x" .
  have ex: "exponent x = (if 2 powi e \<le> x then e else e - 1)"
    by (simp add: exponent_def pq e_def)
  show "2 powi exponent x \<le> x" using lo by (simp add: ex)
  show "x < 2 powi (exponent x + 1)" using hi by (auto simp: ex not_le)
qed

lemma powi_mono: "a \<le> b \<Longrightarrow> (2::rat) powi a \<le> 2 powi b"
  by (rule power_int_increasing) simp_all

lemma powi_less_cancel: "(2::rat) powi a < 2 powi b \<Longrightarrow> a < b"
  using powi_mono [of b a] by (cases "a < b") auto

lemma powi_nat: "0 \<le> n \<Longrightarrow> (2::rat) powi n = of_int (2 ^ nat n)"
  by (simp add: power_int_def)

lemma exponent_unique:
  assumes "2 powi e \<le> x" and "x < 2 powi (e + 1)"
  shows "exponent x = e"
proof -
  have "(0::rat) < 2 powi e" by (rule zero_less_power_int) simp
  from this assms(1) have pos: "0 < x" by (rule less_le_trans)
  from exponent_bounds [OF pos] assms
  have "(2::rat) powi exponent x < 2 powi (e + 1)" and "(2::rat) powi e < 2 powi (exponent x + 1)"
    by (auto intro: le_less_trans)
  then have "exponent x < e + 1" and "e < exponent x + 1"
    by (auto dest: powi_less_cancel)
  then show ?thesis by simp
qed

lemma exponent_mono:
  assumes "0 < x" and "x \<le> y"
  shows "exponent x \<le> exponent y"
proof -
  from assms have y: "0 < y" by simp
  have "(2::rat) powi exponent x \<le> x" by (rule exponent_bounds [OF assms(1)])
  also note assms(2)
  also have "y < 2 powi (exponent y + 1)" by (rule exponent_bounds [OF y])
  finally have "exponent x < exponent y + 1" by (rule powi_less_cancel)
  then show ?thesis by simp
qed

lemma round_even_of_int [simp]: "round_even (of_int n) = n"
  by (simp add: round_even_def)

lemma round_even_mono:
  assumes "a \<le> b"
  shows "round_even a \<le> round_even b"
proof (cases "\<lfloor>a\<rfloor> = \<lfloor>b\<rfloor>")
  case True
  with assms show ?thesis
    unfolding round_even_def Let_def by auto
next
  case False
  with assms have lt: "\<lfloor>a\<rfloor> < \<lfloor>b\<rfloor>" using floor_mono [OF assms] by simp
  have "round_even a \<le> \<lfloor>a\<rfloor> + 1" unfolding round_even_def Let_def by auto
  also have "\<dots> \<le> \<lfloor>b\<rfloor>" using lt by simp
  also have "\<dots> \<le> round_even b" unfolding round_even_def Let_def by auto
  finally show ?thesis .
qed

lemma ulp_pos: "0 < ulp x"
  unfolding ulp_def by (rule zero_less_power_int) simp

lemma to_double_pos_eq: "0 < x \<Longrightarrow> to_double x = of_int (round_even (x / ulp x)) * ulp x"
  by (simp add: to_double_def)

text \<open>Rounding does not cross a multiple of the spacing.\<close>

lemma to_double_le:
  assumes "0 < x" and "x \<le> of_int k * ulp x"
  shows "to_double x \<le> of_int k * ulp x"
proof -
  have "x / ulp x \<le> of_int k" using assms(2) ulp_pos [of x] by (simp add: pos_divide_le_eq)
  then have "round_even (x / ulp x) \<le> round_even (of_int k)" by (rule round_even_mono)
  then have "(of_int (round_even (x / ulp x)) :: rat) \<le> of_int k" by simp
  then show ?thesis
    unfolding to_double_pos_eq [OF assms(1)]
    by (rule mult_right_mono) (rule less_imp_le [OF ulp_pos])
qed

lemma to_double_ge:
  assumes "0 < x" and "of_int k * ulp x \<le> x"
  shows "of_int k * ulp x \<le> to_double x"
proof -
  have "of_int k \<le> x / ulp x" using assms(2) ulp_pos [of x] by (simp add: pos_le_divide_eq)
  then have "round_even (of_int k) \<le> round_even (x / ulp x)" by (rule round_even_mono)
  then have "(of_int k :: rat) \<le> of_int (round_even (x / ulp x))" by simp
  then show ?thesis
    unfolding to_double_pos_eq [OF assms(1)]
    by (rule mult_right_mono) (rule less_imp_le [OF ulp_pos])
qed

lemma to_double_nonneg:
  assumes "0 \<le> x"
  shows "0 \<le> to_double x"
proof (cases "x = 0")
  case True
  then show ?thesis by (simp add: to_double_def)
next
  case False
  with assms have pos: "0 < x" by simp
  have "of_int 0 * ulp x \<le> to_double x"
    by (rule to_double_ge [OF pos]) (use pos in simp)
  then show ?thesis by simp
qed

text \<open>Rounding is monotone: within one binade by the rounding of the significand, across
  binades because the power of two between the two numbers is a double.\<close>

lemma to_double_mono:
  assumes "0 \<le> x" and "x \<le> y"
  shows "to_double x \<le> to_double y"
proof (cases "x = 0")
  case True
  from assms have "0 \<le> y" by simp
  then show ?thesis using True to_double_nonneg [of y] by (simp add: to_double_def)
next
  case False
  with assms have x: "0 < x" and y: "0 < y" by simp_all
  define mx where "mx = max (exponent x) (- 1022)"
  define my where "my = max (exponent y) (- 1022)"
  have ux: "ulp x = 2 powi (mx - 52)" and uy: "ulp y = 2 powi (my - 52)"
    by (simp_all add: ulp_def mx_def my_def)
  have le: "mx \<le> my"
    using exponent_mono [OF x assms(2)] by (simp add: mx_def my_def)
  show ?thesis
  proof (cases "mx = my")
    case True
    then have u: "ulp y = ulp x" by (simp add: ux uy)
    have "x / ulp x \<le> y / ulp x"
      using assms(2) ulp_pos [of x] by (simp add: divide_right_mono)
    then have "round_even (x / ulp x) \<le> round_even (y / ulp x)" by (rule round_even_mono)
    then have "(of_int (round_even (x / ulp x)) :: rat) \<le> of_int (round_even (y / ulp x))" by simp
    then have "of_int (round_even (x / ulp x)) * ulp x \<le> of_int (round_even (y / ulp x)) * ulp x"
      by (rule mult_right_mono) (rule less_imp_le [OF ulp_pos])
    then show ?thesis
      by (simp add: to_double_pos_eq [OF x] to_double_pos_eq [OF y] u)
  next
    case False
    with le have lt: "mx < my" by simp
    then have ey: "my = exponent y" and big: "mx < exponent y" and step: "exponent x + 1 \<le> exponent y"
      by (auto simp: mx_def my_def)
    define B :: rat where "B = 2 powi exponent y"
    have "B = 2 powi (exponent y - mx + 52 + (mx - 52))" by (simp add: B_def)
    also have "\<dots> = 2 powi (exponent y - mx + 52) * 2 powi (mx - 52)"
      by (rule power_int_add) simp
    also have "2 powi (exponent y - mx + 52) = (of_int (2 ^ nat (exponent y - mx + 52)) :: rat)"
      using big by (intro powi_nat) simp
    finally have Bx: "B = of_int (2 ^ nat (exponent y - mx + 52)) * ulp x" by (simp add: ux)
    have "B = 2 powi (52 + (exponent y - 52))" by (simp add: B_def)
    also have "\<dots> = 2 powi 52 * 2 powi (exponent y - 52)"
      by (rule power_int_add) simp
    also have "(2::rat) powi 52 = of_int (2 ^ nat 52)" by (intro powi_nat) simp
    finally have By: "B = of_int (2 ^ nat 52) * ulp y" by (simp add: uy ey)
    have "x < 2 powi (exponent x + 1)" by (rule exponent_bounds [OF x])
    also have "\<dots> \<le> B" unfolding B_def by (rule powi_mono [OF step])
    finally have "x \<le> B" by simp
    then have "to_double x \<le> B" unfolding Bx by (rule to_double_le [OF x])
    also have "B \<le> y" unfolding B_def by (rule exponent_bounds [OF y])
    then have "B \<le> to_double y" unfolding By by (rule to_double_ge [OF y])
    finally show ?thesis .
  qed
qed

text \<open>A double below 1 is at most the largest double below 1.\<close>

lemma double_below_one:
  assumes "to_double r = r" and "0 \<le> r" and "r < 1"
  shows "r \<le> 1 - 1 / 2 ^ 53"
proof (cases "r < 1 / 2")
  case True
  then show ?thesis by simp
next
  case False
  then have h: "2 powi (- 1) \<le> r" by (simp add: power_int_def)
  have "r < 2 powi (- 1 + 1)" using assms(3) by simp
  with h have e: "exponent r = - 1" by (rule exponent_unique)
  have "ulp r = 2 powi (- 53)" by (simp add: ulp_def e)
  also have "\<dots> = 1 / 2 ^ 53" by (simp add: power_int_minus inverse_eq_divide)
  finally have u: "ulp r = 1 / 2 ^ 53" .
  from False have pos: "0 < r" by simp
  define k where "k = round_even (r / ulp r)"
  have "r = of_int k * ulp r"
    using assms(1) by (simp only: to_double_pos_eq [OF pos] k_def)
  then have r: "r = of_int k / 2 ^ 53" by (simp only: u times_divide_eq_right mult_1_right)
  with assms(3) have "(of_int k :: rat) < 2 ^ 53" by (simp add: pos_divide_less_eq)
  then have "(of_int k :: rat) < of_int (2 ^ 53)" by simp
  then have "k < 2 ^ 53" by (simp only: of_int_less_iff)
  then have "k \<le> 2 ^ 53 - 1" by simp
  then have "(of_int k :: rat) \<le> of_int (2 ^ 53 - 1)" by (simp only: of_int_le_iff)
  then have "(of_int k :: rat) / 2 ^ 53 \<le> of_int (2 ^ 53 - 1) / 2 ^ 53"
    by (rule divide_right_mono) simp
  then show ?thesis unfolding r by (simp add: diff_divide_distrib)
qed

subsection \<open>The delay\<close>

text \<open>The three products at the largest double below 1.\<close>

lemma largest_times_30: "to_double ((1 - 1 / 2 ^ 53) * 30) = 30 - 1 / 2 ^ 48"
  by code_simp

lemma largest_times_60: "to_double ((30 - 1 / 2 ^ 48) * 60) = 1800 - 1 / 2 ^ 42"
  by code_simp

lemma largest_times_1000: "to_double ((1800 - 1 / 2 ^ 42) * 1000) = 1800000 - 1 / 2 ^ 32"
  by code_simp

text \<open>
  The roundings count: at this draw the exact product has the floor 3568, the rounded one
  the floor 3569.
\<close>

lemma rounded_product_differs:
  "periodic_delay (17859274522317 / 2 ^ 53) = 1803569 \<and>
   \<lfloor>(17859274522317 / 2 ^ 53 :: rat) * 30 * 60 * 1000\<rfloor> + 30 * 60 * 1000 = 1803568"
  by code_simp

lemma periodic_delay_bounds:
  assumes "to_double r = r" and "0 \<le> r" and "r < 1"
  shows "1800000 \<le> periodic_delay r" and "periodic_delay r < 3600000"
proof -
  define a where "a = to_double (r * 30)"
  define b where "b = to_double (a * 60)"
  define c where "c = to_double (b * 1000)"
  have r1: "r \<le> 1 - 1 / 2 ^ 53" by (rule double_below_one [OF assms])
  have a0: "0 \<le> a" unfolding a_def using assms(2) by (intro to_double_nonneg) simp
  have b0: "0 \<le> b" unfolding b_def using a0 by (intro to_double_nonneg) simp
  have c0: "0 \<le> c" unfolding c_def using b0 by (intro to_double_nonneg) simp
  have "a \<le> to_double ((1 - 1 / 2 ^ 53) * 30)"
    unfolding a_def using assms(2) r1 by (intro to_double_mono) simp_all
  then have a1: "a \<le> 30 - 1 / 2 ^ 48" by (simp only: largest_times_30)
  have "b \<le> to_double ((30 - 1 / 2 ^ 48) * 60)"
    unfolding b_def using a0 a1 by (intro to_double_mono) simp_all
  then have b1: "b \<le> 1800 - 1 / 2 ^ 42" by (simp only: largest_times_60)
  have "c \<le> to_double ((1800 - 1 / 2 ^ 42) * 1000)"
    unfolding c_def using b0 b1 by (intro to_double_mono) simp_all
  then have "c \<le> 1800000 - 1 / 2 ^ 32" by (simp only: largest_times_1000)
  then have c1: "c < 1800000" by simp
  have p: "periodic_delay r = \<lfloor>c\<rfloor> + 1800000"
    by (simp add: periodic_delay_def a_def b_def c_def)
  have "0 \<le> \<lfloor>c\<rfloor>" using c0 by simp
  then show "1800000 \<le> periodic_delay r" by (simp add: p)
  have "\<lfloor>c\<rfloor> < 1800000" using c1 by (simp add: floor_less_iff)
  then show "periodic_delay r < 3600000" by (simp add: p)
qed

subsection \<open>The firings\<close>

lemma fired:
  "interval_ms ((fire ^^ k) sch) = interval_ms sch \<and>
   draws ((fire ^^ k) sch) = draws sch \<and>
   next_due ((fire ^^ k) sch) = next_due sch + int k * interval_ms sch"
  by (induction k) (simp_all add: fire_def algebra_simps)

lemma delay_before_firing_eq:
  "delay_before_firing (initPeriodicMessages random n) k = periodic_delay (random n)"
  by (cases k)
    (simp_all add: delay_before_firing_def firing_time_def fired initPeriodicMessages_def
      algebra_simps del: funpow.simps)

text \<open>
  Against C5 as stated: with the draws 0, 1/2, 1/2, ... the delay before the second firing
  (firing 1) is the 30 minutes of the first draw, not the 45 minutes a fresh draw would give.
\<close>

theorem second_firing_uses_first_draw:
  "delay_before_firing (initPeriodicMessages example_random 0) 1 = 1800000 \<and>
   periodic_delay (example_random 1) = 2700000"
proof -
  have "periodic_delay (example_random 0) = 1800000" by code_simp
  moreover have "periodic_delay (example_random 1) = 2700000" by code_simp
  ultimately show ?thesis by (simp add: delay_before_firing_eq)
qed

text \<open>
  C5, amended. For the assistant-broadcast job one random number is drawn, when the job
  is set up: a double \<open>r\<close> in [0, 1). The delay computed from it, the floor of the double
  product \<open>r * 30 * 60 * 1000\<close> plus 1800000 milliseconds, lies in [30, 60) minutes, and
  that same delay comes before every firing: the interval is fixed once at startup, and
  however often the job has fired no further number has been drawn.
\<close>

theorem periodic_delay_drawn_once:
  assumes "to_double (random n) = random n" and "0 \<le> random n" and "random n < 1"
  shows "30 * 60 * 1000 \<le> delay_before_firing (initPeriodicMessages random n) k \<and>
         delay_before_firing (initPeriodicMessages random n) k < 60 * 60 * 1000 \<and>
         delay_before_firing (initPeriodicMessages random n) k =
           \<lfloor>to_double (to_double (to_double (random n * 30) * 60) * 1000)\<rfloor> + 1800000 \<and>
         draws ((fire ^^ k) (initPeriodicMessages random n)) = n + 1"
proof -
  have d: "delay_before_firing (initPeriodicMessages random n) k = periodic_delay (random n)"
    by (rule delay_before_firing_eq)
  have f: "draws ((fire ^^ k) (initPeriodicMessages random n)) = n + 1"
    by (simp add: fired initPeriodicMessages_def del: funpow.simps)
  have p: "periodic_delay (random n) =
           \<lfloor>to_double (to_double (to_double (random n * 30) * 60) * 1000)\<rfloor> + 1800000"
    by (simp add: periodic_delay_def)
  show ?thesis
    unfolding d f using periodic_delay_bounds [OF assms] p by simp
qed

text \<open>
  The theorem at work: the draw 1/2 gives 45 minutes before the first firing and before
  the sixth, and after six firings it is still the only draw made.
\<close>

theorem periodic_delay_drawn_once_witness:
  "to_double (example_random 1) = example_random 1 \<and>
   0 \<le> example_random 1 \<and> example_random 1 < 1 \<and>
   delay_before_firing (initPeriodicMessages example_random 1) 0 = 2700000 \<and>
   delay_before_firing (initPeriodicMessages example_random 1) 5 = 2700000 \<and>
   draws ((fire ^^ 6) (initPeriodicMessages example_random 1)) = 2"
proof -
  have d: "to_double (example_random 1) = example_random 1" by code_simp
  have lo: "0 \<le> example_random 1" and hi: "example_random 1 < 1"
    by (simp_all add: example_random_def)
  have v: "\<lfloor>to_double (to_double (to_double (example_random 1 * 30) * 60) * 1000)\<rfloor> + 1800000 =
           (2700000 :: int)"
    by code_simp
  show ?thesis
    using d lo hi v periodic_delay_drawn_once [of example_random 1 0]
      periodic_delay_drawn_once [of example_random 1 5]
      periodic_delay_drawn_once [of example_random 1 6]
    by (simp del: funpow.simps)
qed

section \<open>Directed delivery and acknowledgments (C7, C8, C10)\<close>

text \<open>
  Against C7 as stated: alice, bound on the sockets 1 and 2, sends from socket 1 a
  \<^verbatim>\<open>direct-message\<close> whose target is herself. The sending socket gets the message too.
\<close>

theorem message_to_self_is_echoed:
  "map_of (clients hub_multi) 1 = Some alice \<and>
   sent (on_message ''t0'' ''m1'' hub_multi 1 (Envelope message_to_self)) =
     [(1, JObj [(''type'', JStr ''direct-message''), (''targetUserId'', JNum 1),
                (''content'', JStr ''hi''),
                (''sender'', JObj [(''userId'', JNum 1), (''username'', JStr ''alice'')]),
                (''messageId'', JStr ''m1''), (''originalSenderId'', JNum 1)]),
      (2, JObj [(''type'', JStr ''direct-message''), (''targetUserId'', JNum 1),
                (''content'', JStr ''hi''),
                (''sender'', JObj [(''userId'', JNum 1), (''username'', JStr ''alice'')]),
                (''messageId'', JStr ''m1''), (''originalSenderId'', JNum 1)])]"
  by (simp add: on_message_def dispatch_def directed_def send_to_user_def bound_to_def enrich_def
      Let_def jget_def example_defs payload_defs)

text \<open>
  C7, amended. For every \<^verbatim>\<open>direct-message\<close> envelope sent by an authenticated connection,
  with \<^verbatim>\<open>targetUserId = U\<close>: if \<open>U\<close> is truthy, the enriched envelope is sent once to each
  open connection bound to user \<open>U\<close> and to no connection of any other user; if \<open>U\<close> is
  falsy or missing, it is sent to no one. The sending connection itself receives it
  exactly when it is open and bound to \<open>U\<close>, that is when the sender addresses itself.
\<close>

theorem direct_message_delivery:
  assumes "map_of (clients st) ws = Some clientInfo"
    and "jget data ''type'' = Some (JStr ''direct-message'')"
  shows "sent (on_message now mid st ws (Envelope data)) =
           map (\<lambda>c. (c, enrich data clientInfo mid))
             (filter (\<lambda>c. truthy (jget data ''targetUserId'') \<and> readyState st c = OPEN \<and>
                         bound_to st c (jget data ''targetUserId''))
                (wss_clients st)) \<and>
         (ws \<in> fst ` set (sent (on_message now mid st ws (Envelope data))) \<longleftrightarrow>
            truthy (jget data ''targetUserId'') \<and> ws \<in> set (wss_clients st) \<and>
            readyState st ws = OPEN \<and> strict_eq (userId clientInfo) (jget data ''targetUserId''))"
proof -
  have s: "sent (on_message now mid st ws (Envelope data)) =
           (if truthy (jget data ''targetUserId'')
            then send_to_user st (jget data ''targetUserId'') (enrich data clientInfo mid) else [])"
    using assms by (simp add: on_message_def dispatch_def directed_def)
  have b: "bound_to st ws u = strict_eq (userId clientInfo) u" for u
    using assms(1) by (simp add: bound_to_def)
  show ?thesis
  proof (cases "truthy (jget data ''targetUserId'')")
    case True
    then show ?thesis
      by (auto simp: s send_to_user_def b image_iff)
  next
    case False
    then show ?thesis by (simp add: s)
  qed
qed

text \<open>The theorem at work: alice, on socket 1, writes to bob, who is on socket 3.\<close>

theorem direct_message_delivery_witness:
  "map_of (clients hub_multi) 1 = Some alice \<and>
   jget message_to_bob ''type'' = Some (JStr ''direct-message'') \<and>
   sent (on_message ''t0'' ''m1'' hub_multi 1 (Envelope message_to_bob)) =
     [(3, enrich message_to_bob alice ''m1'')] \<and>
   1 \<notin> fst ` set (sent (on_message ''t0'' ''m1'' hub_multi 1 (Envelope message_to_bob)))"
proof -
  have a: "map_of (clients hub_multi) 1 = Some alice" by (simp add: hub_multi_def)
  have t: "jget message_to_bob ''type'' = Some (JStr ''direct-message'')"
    by (simp add: jget_def message_to_bob_def)
  have f: "filter (\<lambda>c. truthy (jget message_to_bob ''targetUserId'') \<and> readyState hub_multi c = OPEN \<and>
                     bound_to hub_multi c (jget message_to_bob ''targetUserId''))
             (wss_clients hub_multi) = [3]"
    by (simp add: jget_def bound_to_def example_defs)
  have n: "\<not> strict_eq (userId alice) (jget message_to_bob ''targetUserId'')"
    by (simp add: jget_def example_defs)
  show ?thesis
    using a t f n direct_message_delivery [OF a t, of "''t0''" "''m1''"] by simp
qed

text \<open>
  Against C8 as stated: bob, on socket 3, acknowledges to alice (user 1) the message whose
  identifier is the number 0. The frame carries \<^verbatim>\<open>messageId\<close> and \<^verbatim>\<open>originalSenderId\<close>, yet
  no \<^verbatim>\<open>{type: ack, messageId, timestamp}\<close> envelope is sent: the frame is enriched and
  broadcast, and carol's socket 4 receives it as well.
\<close>

theorem ack_with_falsy_messageId_is_broadcast:
  "map_of (clients hub_multi) 3 = Some bob \<and>
   jget ack_zero ''messageId'' = Some (JNum 0) \<and>
   jget ack_zero ''originalSenderId'' = Some (JNum 1) \<and>
   sent (on_message ''t0'' ''m1'' hub_multi 3 (Envelope ack_zero)) =
     [(1, JObj [(''type'', JStr ''ack''), (''messageId'', JStr ''m1''), (''originalSenderId'', JNum 2),
                (''sender'', JObj [(''userId'', JNum 2), (''username'', JStr ''bob'')])]),
      (2, JObj [(''type'', JStr ''ack''), (''messageId'', JStr ''m1''), (''originalSenderId'', JNum 2),
                (''sender'', JObj [(''userId'', JNum 2), (''username'', JStr ''bob'')])]),
      (4, JObj [(''type'', JStr ''ack''), (''messageId'', JStr ''m1''), (''originalSenderId'', JNum 2),
                (''sender'', JObj [(''userId'', JNum 2), (''username'', JStr ''bob'')])])]"
  by (simp add: on_message_def dispatch_def directed_def send_to_others_def enrich_def
      Let_def jget_def example_defs payload_defs)

text \<open>
  C8, amended. For every \<^verbatim>\<open>ack\<close> envelope with a truthy \<^verbatim>\<open>messageId = M\<close>, received from an
  authenticated connection: if its \<^verbatim>\<open>originalSenderId = S\<close> is truthy, an envelope
  \<^verbatim>\<open>{type: ack, messageId: M, timestamp}\<close> is sent once to each open connection bound to
  user \<open>S\<close> and to no other connection; if \<open>S\<close> is falsy or missing, or has no open
  connection, the acknowledgment is dropped. Nothing else happens.
\<close>

theorem ack_relay:
  assumes "map_of (clients st) ws = Some clientInfo"
    and "jget data ''type'' = Some (JStr ''ack'')"
    and "truthy (jget data ''messageId'')"
  shows "sent (on_message now mid st ws (Envelope data)) =
           map (\<lambda>c. (c, ack_payload (jget data ''messageId'') now))
             (filter (\<lambda>c. truthy (jget data ''originalSenderId'') \<and> readyState st c = OPEN \<and>
                         bound_to st c (jget data ''originalSenderId''))
                (wss_clients st)) \<and>
         hub_after (on_message now mid st ws (Envelope data)) = st \<and>
         spawned (on_message now mid st ws (Envelope data)) = []"
  using assms by (simp add: on_message_def send_to_user_def)

text \<open>The theorem at work: bob acknowledges the message "m1" to alice, who is on the sockets 1 and 2.\<close>

theorem ack_relay_witness:
  "map_of (clients hub_multi) 3 = Some bob \<and>
   jget ack_m1 ''type'' = Some (JStr ''ack'') \<and>
   truthy (jget ack_m1 ''messageId'') \<and>
   sent (on_message ''t0'' ''m2'' hub_multi 3 (Envelope ack_m1)) =
     [(1, JObj [(''type'', JStr ''ack''), (''messageId'', JStr ''m1''), (''timestamp'', JStr ''t0'')]),
      (2, JObj [(''type'', JStr ''ack''), (''messageId'', JStr ''m1''), (''timestamp'', JStr ''t0'')])]"
proof -
  have a: "map_of (clients hub_multi) 3 = Some bob" by (simp add: hub_multi_def)
  have t: "jget ack_m1 ''type'' = Some (JStr ''ack'')" by (simp add: jget_def ack_m1_def)
  have m: "truthy (jget ack_m1 ''messageId'')" by (simp add: jget_def ack_m1_def)
  have f: "filter (\<lambda>c. truthy (jget ack_m1 ''originalSenderId'') \<and> readyState hub_multi c = OPEN \<and>
                     bound_to hub_multi c (jget ack_m1 ''originalSenderId''))
             (wss_clients hub_multi) = [1, 2]"
    by (simp add: jget_def bound_to_def example_defs)
  have p: "ack_payload (jget ack_m1 ''messageId'') ''t0'' =
           JObj [(''type'', JStr ''ack''), (''messageId'', JStr ''m1''), (''timestamp'', JStr ''t0'')]"
    by (simp add: ack_payload_def stringify_def jget_def ack_m1_def)
  show ?thesis
    using a t m f p ack_relay [OF a t m, of "''t0''" "''m2''"] by simp
qed

text \<open>
  Against C10 as stated: socket 2 authenticates with a frame that has a \<^verbatim>\<open>username\<close> and no
  \<^verbatim>\<open>userId\<close>, which binds it all the same; it then sends an \<^verbatim>\<open>ack\<close> without \<^verbatim>\<open>messageId\<close>.
  The frame is broadcast, but what the others receive has no \<^verbatim>\<open>originalSenderId\<close>: the one
  of the frame is overwritten with the undefined \<^verbatim>\<open>userId\<close> of the binding and so left out
  of the text.
\<close>

theorem ack_from_binding_without_userId:
  "clients (hub_after (on_message ''t0'' ''m0'' hub_base 2 (Envelope auth_ghost))) = clients hub_ghost \<and>
   map_of (clients hub_ghost) 2 = Some ghost \<and>
   jget ack_bare ''type'' = Some (JStr ''ack'') \<and>
   jget ack_bare ''messageId'' = None \<and>
   sent (on_message ''t1'' ''m1'' hub_ghost 2 (Envelope ack_bare)) =
     [(1, JObj [(''type'', JStr ''ack''), (''sender'', JObj [(''username'', JStr ''ghost'')]),
                (''messageId'', JStr ''m1'')]),
      (3, JObj [(''type'', JStr ''ack''), (''sender'', JObj [(''username'', JStr ''ghost'')]),
                (''messageId'', JStr ''m1'')]),
      (4, JObj [(''type'', JStr ''ack''), (''sender'', JObj [(''username'', JStr ''ghost'')]),
                (''messageId'', JStr ''m1'')])] \<and>
   jfield (JObj [(''type'', JStr ''ack''), (''sender'', JObj [(''username'', JStr ''ghost'')]),
                 (''messageId'', JStr ''m1'')]) ''originalSenderId'' = None"
  by (simp add: on_message_def on_auth_def dispatch_def directed_def send_to_others_def enrich_def
      Let_def jget_def jfield_def example_defs payload_defs)

text \<open>
  C10, amended. For every authenticated connection, an \<^verbatim>\<open>ack\<close> envelope without a
  \<^verbatim>\<open>messageId\<close> is not relayed to the original sender: it takes the default case and is sent
  once to every open connection except the sender. What is sent is the frame with all its
  other properties, with a \<^verbatim>\<open>sender\<close> object made of the \<^verbatim>\<open>userId\<close> and \<^verbatim>\<open>username\<close> of the
  sender's binding (each only if the binding has it), with a fresh \<^verbatim>\<open>messageId\<close>, and with
  \<^verbatim>\<open>originalSenderId\<close> set to the \<^verbatim>\<open>userId\<close> of the sender's binding; when the binding has no
  \<^verbatim>\<open>userId\<close> the text has no \<^verbatim>\<open>originalSenderId\<close> at all. (An envelope is an object: each of
  its properties occurs once.)
\<close>

theorem ack_without_messageId_is_broadcast:
  assumes "map_of (clients st) ws = Some clientInfo"
    and "jget data ''type'' = Some (JStr ''ack'')"
    and "jget data ''messageId'' = None"
    and "distinct (map fst data)"
  shows "sent (on_message now mid st ws (Envelope data)) =
           map (\<lambda>c. (c, enrich data clientInfo mid))
             (filter (\<lambda>c. c \<noteq> ws \<and> readyState st c = OPEN) (wss_clients st)) \<and>
         (\<exists>fields sender.
            enrich data clientInfo mid = JObj fields \<and> distinct (map fst fields) \<and>
            (\<forall>k. map_of fields k =
                   (if k = ''originalSenderId'' then userId clientInfo
                    else if k = ''messageId'' then Some (JStr mid)
                    else if k = ''sender'' then Some (JObj sender)
                    else map_of data k)) \<and>
            distinct (map fst sender) \<and>
            (\<forall>k. map_of sender k =
                   (if k = ''userId'' then userId clientInfo
                    else if k = ''username'' then username clientInfo
                    else None)))"
proof -
  have s: "sent (on_message now mid st ws (Envelope data)) =
          send_to_others st ws (enrich data clientInfo mid)"
    using assms(1-3) by (simp add: on_message_def dispatch_def)
  obtain fields where f: "enrich data clientInfo mid = JObj fields" and df: "distinct (map fst fields)"
    using enrich_object [OF assms(4)] by blast
  have mf: "map_of fields k =
              (if k = ''originalSenderId'' then userId clientInfo
               else if k = ''messageId'' then Some (JStr mid)
               else if k = ''sender'' then Some (info_json clientInfo)
               else map_of data k)" for k
    using enrich_fields [OF assms(4), of clientInfo mid k] assms(3)
    by (simp add: f jfield_def jget_def)
  obtain sender where i: "info_json clientInfo = JObj sender" and ds: "distinct (map fst sender)"
    and ms: "\<And>k. map_of sender k =
                   (if k = ''userId'' then userId clientInfo
                    else if k = ''username'' then username clientInfo
                    else None)"
    using info_json_object by blast
  show ?thesis
    unfolding s send_to_others_def f using df ds mf ms by (auto simp: i)
qed

text \<open>The theorem at work: bob, on socket 3, sends an \<^verbatim>\<open>ack\<close> that names alice but no message.\<close>

theorem ack_without_messageId_is_broadcast_witness:
  "map_of (clients hub_multi) 3 = Some bob \<and>
   jget ack_bare ''type'' = Some (JStr ''ack'') \<and>
   jget ack_bare ''messageId'' = None \<and>
   distinct (map fst ack_bare) \<and>
   sent (on_message ''t0'' ''m1'' hub_multi 3 (Envelope ack_bare)) =
     [(1, enrich ack_bare bob ''m1''), (2, enrich ack_bare bob ''m1''), (4, enrich ack_bare bob ''m1'')] \<and>
   enrich ack_bare bob ''m1'' =
     JObj [(''type'', JStr ''ack''), (''originalSenderId'', JNum 2),
           (''sender'', JObj [(''userId'', JNum 2), (''username'', JStr ''bob'')]),
           (''messageId'', JStr ''m1'')]"
proof -
  have a: "map_of (clients hub_multi) 3 = Some bob" by (simp add: hub_multi_def)
  have t: "jget ack_bare ''type'' = Some (JStr ''ack'')" by (simp add: jget_def ack_bare_def)
  have m: "jget ack_bare ''messageId'' = None" by (simp add: jget_def ack_bare_def)
  have d: "distinct (map fst ack_bare)" by (simp add: ack_bare_def)
  have f: "filter (\<lambda>c. c \<noteq> 3 \<and> readyState hub_multi c = OPEN) (wss_clients hub_multi) = [1, 2, 4]"
    by (simp add: hub_multi_def)
  have e: "enrich ack_bare bob ''m1'' =
     JObj [(''type'', JStr ''ack''), (''originalSenderId'', JNum 2),
           (''sender'', JObj [(''userId'', JNum 2), (''username'', JStr ''bob'')]),
           (''messageId'', JStr ''m1'')]"
    by (simp add: enrich_def Let_def jget_def ack_bare_def bob_def payload_defs)
  show ?thesis
    using a t m d f e ack_without_messageId_is_broadcast [OF a t m d, of "''t0''" "''m1''"] by simp
qed

section \<open>Sends and the ready state (C9)\<close>

text \<open>
  The loops over \<^verbatim>\<open>wss.clients\<close>, the close handler and the two helpers that run after an
  await look at \<^verbatim>\<open>readyState\<close> before every send.
\<close>

lemma send_to_user_open: "(c, p) \<in> set (send_to_user st u payload) \<Longrightarrow> readyState st c = OPEN"
  by (auto simp: send_to_user_def)

lemma send_to_others_open: "(c, p) \<in> set (send_to_others st ws payload) \<Longrightarrow> readyState st c = OPEN"
  by (auto simp: send_to_others_def)

lemma guarded_sends_are_open:
  shows "(c, p) \<in> set (sent (handleSearchQuery st db ws clientInfo query)) \<Longrightarrow> readyState st c = OPEN"
    and "(c, p) \<in> set (sent (sendFriendSuggestions st db ws uid)) \<Longrightarrow> readyState st c = OPEN"
    and "(c, p) \<in> set (sent (on_close st ws)) \<Longrightarrow> readyState st c = OPEN"
  by (auto simp: handleSearchQuery_def sendFriendSuggestions_def on_close_def Let_def
      dest: send_to_others_open split: sum.splits if_splits option.splits)

lemma dispatch_sends:
  "(c, p) \<in> set (sent (dispatch st ws clientInfo data e)) \<Longrightarrow> readyState st c = OPEN"
  by (auto simp: dispatch_def directed_def Let_def
      dest: send_to_others_open send_to_user_open split: if_splits option.splits prod.splits)

text \<open>
  The message handler sends without a look at \<^verbatim>\<open>readyState\<close> only its two replies to the
  socket the frame came from; so does the \<^verbatim>\<open>contact-status-update\<close> case for its error
  reply, once the collaborator has answered.
\<close>

lemma on_message_sends:
  assumes "(c, p) \<in> set (sent (on_message now mid st ws fr))"
  shows "readyState st c = OPEN \<or>
         (c = ws \<and> (p = not_authenticated \<or> jfield p ''type'' = Some (JStr ''online-users'')))"
  using assms
  by (auto simp: on_message_def on_auth_def Let_def jfield_def stringify_def
      dest: send_to_others_open send_to_user_open dispatch_sends
      split: frame.splits if_splits option.splits)

lemma contact_status_sends:
  assumes "(c, p) \<in> set (sent (contact_status_done now st ws clientInfo result))"
  shows "readyState st c = OPEN \<or> (c = ws \<and> p = contact_status_failed)"
  using assms
  by (auto simp: contact_status_done_def split: sum.splits option.splits)

text \<open>
  C9. Every send path checks that the target connection is open before it sends. The
  code does not do this on every path: the \<^verbatim>\<open>error\<close> reply of \<^verbatim>\<open>contact-status-update\<close> calls
  \<^verbatim>\<open>ws.send\<close> without looking at \<^verbatim>\<open>ws.readyState\<close>, where the \<^verbatim>\<open>error\<close> reply of
  \<^verbatim>\<open>handleSearchQuery\<close> looks first. Alice, on socket 1, sends a \<^verbatim>\<open>contact-status-update\<close>;
  while the handler awaits the database her socket closes, and the database fails: the
  handler calls \<^verbatim>\<open>send\<close> on the closed socket.
\<close>

theorem error_reply_sent_to_closed_socket:
  "spawned (on_message ''t0'' ''m1'' hub_multi 1 (Envelope contact_update)) =
     [ContactStatusUpdate 1 alice (JNum 5) (JStr ''accepted'')] \<and>
   readyState hub_closed 1 = CLOSED \<and>
   sent (fst (run_task ''t1'' hub_closed db_down
      (ContactStatusUpdate 1 alice (JNum 5) (JStr ''accepted'')))) =
     [(1, JObj [(''type'', JStr ''error''), (''message'', JStr ''Failed to update contact status''),
                (''errorCode'', JStr ''CONTACT_STATUS_UPDATE_FAILED'')])]"
  by (simp add: on_message_def dispatch_def directed_def run_task_def updateContactStatus_def
      contact_status_done_def Let_def jget_def example_defs payload_defs)

end
